theory Spec2Isabelle
  imports Complex_Main
begin

section \<open>Numbers, thrown values and the outside world\<close>

text \<open>
  The TypeScript sources are \<^verbatim>\<open>src/RetryHelper.ts\<close> (the two backoff policy classes) and
  \<^verbatim>\<open>src/RetryHelpers.ts\<close> (the option classes and the class \<^verbatim>\<open>RetryHelper\<close> with its method
  \<^verbatim>\<open>run\<close>). A JavaScript \<^verbatim>\<open>number\<close> that holds milliseconds or a configured limit is a
  \<^typ>\<open>real\<close> here (an idealisation of the IEEE double: no rounding, no NaN, no infinity);
  a counter that only starts at 0 and is incremented is a \<^typ>\<open>nat\<close>; a \<^verbatim>\<open>Date\<close> is the
  \<^typ>\<open>real\<close> that its \<^verbatim>\<open>getTime()\<close> returns.
\<close>

text \<open>
  Everything that is thrown inside \<^verbatim>\<open>run\<close>. \<open>OpError e\<close> is the value \<open>e\<close> the wrapped
  operation rejected with; \<open>TypeError\<close> is what spreading an undefined \<^verbatim>\<open>args\<close> throws.
  The three exception classes of \<^verbatim>\<open>RetryHelpers.ts\<close> carry: the number interpolated into
  their message template (for \<open>NonretriableException\<close> the caught value, which is also its
  \<^verbatim>\<open>cause\<close>) and their \<^verbatim>\<open>code\<close> string.
\<close>

datatype 'e thrown =
    OpError 'e
  | TypeError
  | MaxAttemptsException nat string
  | MaxTimeoutException real string
  | NonretriableException "'e thrown" string
  | InvalidConfiguration

text \<open>
  The calls that leave a method: the log is ghost state, kept in the order the calls are
  made. \<open>EmitterOn\<close> is \<^verbatim>\<open>eventEmitter.on(TIMEOUT, onErr)\<close>, \<open>CallF\<close> is one invocation of
  the wrapped operation, \<open>CheckCalled i\<close> and \<open>DelayCalled i prev out\<close> are the calls of
  \<^verbatim>\<open>checkRetryAllowed\<close> and \<^verbatim>\<open>retryDelayMs\<close> on the option at index \<open>i\<close> (the latter with
  the \<^verbatim>\<open>previousDelayMs\<close> it received and the number it returned), \<open>SetTimeout ms\<close> arms a
  timer, \<open>Sleep ms\<close> is a call of the module's \<^verbatim>\<open>sleep\<close>.
\<close>

datatype event =
    EmitterOn
  | CallF
  | CheckCalled nat
  | DelayCalled nat real real
  | SetTimeout real
  | Sleep real

text \<open>
  The world outside the objects: the log, and the source of \<^verbatim>\<open>Math.random()\<close>, whose
  \<open>k\<close>-th sample is \<open>random k\<close>.
\<close>

record world =
  log :: "event list"
  random :: "nat \<Rightarrow> real"
  drawn :: nat

definition emit :: "event \<Rightarrow> world \<Rightarrow> world" where
  "emit e w = w\<lparr>log := log w @ [e]\<rparr>"

definition Math_random :: "world \<Rightarrow> real \<times> world" where
  "Math_random w = (random w (drawn w), w\<lparr>drawn := Suc (drawn w)\<rparr>)"

definition setTimeout :: "real \<Rightarrow> world \<Rightarrow> world" where
  "setTimeout ms w = emit (SetTimeout ms) w"

text \<open>
  \<^verbatim>\<open>const sleep = (ms) => new Promise((resolve) => setTimeout(resolve, ms))\<close>
\<close>

definition sleep :: "real \<Rightarrow> world \<Rightarrow> world" where
  "sleep ms w = setTimeout ms (emit (Sleep ms) w)"

text \<open>
  Modelled from the spec: the function \<^verbatim>\<open>assert\<close> that the constructor of \<^verbatim>\<open>DelayJitter\<close>
  calls is neither defined nor imported in \<^verbatim>\<open>RetryHelpers.ts\<close>. By the error taxonomy of the
  specification a policy constructed with contradictory parameters fails at construction
  with \<open>InvalidConfiguration\<close>; so \<open>assert c\<close> throws that when \<open>c\<close> is false.
\<close>

definition assert :: "bool \<Rightarrow> 'e thrown option" where
  "assert c = (if c then None else Some InvalidConfiguration)"


section \<open>The backoff policies of RetryHelper.ts\<close>

record LinearBackoffPolicy =
  numAttempts :: nat
  delay :: real
  increment :: "real option"

text \<open>
  The constructor: \<^verbatim>\<open>this.delay = delay; if (!increment) { this.increment = delay; }\<close>.
  An omitted increment is \<open>None\<close>; \<^verbatim>\<open>!increment\<close> also holds for 0. Otherwise the field
  stays undefined.
\<close>

definition new_LinearBackoffPolicy :: "real \<Rightarrow> real option \<Rightarrow> LinearBackoffPolicy" where
  "new_LinearBackoffPolicy d inc =
     \<lparr>numAttempts = 0, delay = d,
      increment = (if inc = None \<or> inc = Some 0 then Some d else None)\<rparr>"

text \<open>\<^verbatim>\<open>this.numAttempts++; return this.numAttempts*this.delay;\<close>\<close>

definition getDelay :: "LinearBackoffPolicy \<Rightarrow> real \<times> LinearBackoffPolicy" where
  "getDelay p =
     (let p1 = p\<lparr>numAttempts := numAttempts p + 1\<rparr>
      in (real (numAttempts p1) * delay p1, p1))"

record ExponentialBackoffPolicy =
  exp_numAttempts :: nat
  exp_delay :: "real option"
  delayBase :: real
  exponential :: nat

definition new_ExponentialBackoffPolicy :: "real \<Rightarrow> nat \<Rightarrow> ExponentialBackoffPolicy" where
  "new_ExponentialBackoffPolicy b e =
     \<lparr>exp_numAttempts = 0, exp_delay = None, delayBase = b, exponential = e\<rparr>"

text \<open>
  \<^verbatim>\<open>this.numAttempts++; return Math.pow(this.delayBase, this.exponential);\<close> with the
  exponent a natural number.
\<close>

definition exp_getDelay :: "ExponentialBackoffPolicy \<Rightarrow> real \<times> ExponentialBackoffPolicy" where
  "exp_getDelay p =
     (let p1 = p\<lparr>exp_numAttempts := exp_numAttempts p + 1\<rparr>
      in (delayBase p1 ^ exponential p1, p1))"

text \<open>
  Calling a policy's \<^verbatim>\<open>getDelay\<close> \<open>k\<close> times in a row: the numbers returned, in order, and
  the policy afterwards.
\<close>

fun getDelays :: "nat \<Rightarrow> LinearBackoffPolicy \<Rightarrow> real list \<times> LinearBackoffPolicy" where
  "getDelays 0 p = ([], p)"
| "getDelays (Suc k) p =
     (let (d, p1) = getDelay p; (ds, p2) = getDelays k p1 in (d # ds, p2))"

fun exp_getDelays ::
  "nat \<Rightarrow> ExponentialBackoffPolicy \<Rightarrow> real list \<times> ExponentialBackoffPolicy" where
  "exp_getDelays 0 p = ([], p)"
| "exp_getDelays (Suc k) p =
     (let (d, p1) = exp_getDelay p; (ds, p2) = exp_getDelays k p1 in (d # ds, p2))"


section \<open>The retry options of RetryHelpers.ts\<close>

text \<open>
  An object that implements the interface \<^verbatim>\<open>RetryOption\<close>, with its fields. The first five
  are the classes of the source:
  \<^item> \<open>MaxAttemptsRetryAllowed attempts maxAttempts\<close>;
  \<^item> \<open>LinearBackoff attempts currentDelay timeout delay\<close>, the \<^verbatim>\<open>timeout\<close> handle being the
    delay of the timer armed last;
  \<^item> \<open>MaxTimeout totalTimeoutMs\<close>;
  \<^item> \<open>DelayJitter minJitterMs maxJitterMs\<close>;
  \<^item> \<open>RetriableExceptions errors\<close>.

  The interface is exported and both of its methods are optional, so a caller can pass an
  object of its own: \<open>Custom u c d\<close> has the private state \<open>u\<close>, the method
  \<^verbatim>\<open>checkRetryAllowed\<close> when \<open>c\<close> is \<open>Some\<close> of it and the method \<^verbatim>\<open>retryDelayMs\<close> when \<open>d\<close>
  is. Its \<^verbatim>\<open>checkRetryAllowed\<close> returns what it throws, if anything, and the new state;
  its \<^verbatim>\<open>retryDelayMs\<close> returns a number, as the interface declares, and the new state.
  The methods of such an object are taken to read and write its own state only.

  The options of a helper are a list of such values: the objects registered with one
  helper are taken to be distinct, none of them registered twice.
\<close>

datatype ('e, 'u) RetryOption =
    MaxAttemptsRetryAllowed nat real
  | LinearBackoff nat real "real option" real
  | MaxTimeout real
  | DelayJitter real real
  | RetriableExceptions "'e thrown list"
  | Custom 'u "(nat \<Rightarrow> real \<Rightarrow> 'e thrown \<Rightarrow> 'u \<Rightarrow> 'e thrown option \<times> 'u) option"
             "(real \<Rightarrow> real \<Rightarrow> 'u \<Rightarrow> real \<times> 'u) option"

text \<open>
  A method called on an object returns: for \<^verbatim>\<open>checkRetryAllowed\<close> the value thrown
  (\<open>None\<close> when it returns normally), for \<^verbatim>\<open>retryDelayMs\<close> the number returned; then the
  object after the call (a field assigned before a \<^verbatim>\<open>throw\<close> stays assigned) and the world
  after the call.
\<close>

type_synonym ('e, 'u) check_method =
  "nat \<Rightarrow> real \<Rightarrow> 'e thrown \<Rightarrow> world \<Rightarrow> 'e thrown option \<times> ('e, 'u) RetryOption \<times> world"

type_synonym ('e, 'u) delay_method =
  "real \<Rightarrow> real \<Rightarrow> world \<Rightarrow> real \<times> ('e, 'u) RetryOption \<times> world"

subsection \<open>Constructors\<close>

definition new_MaxAttemptsRetryAllowed :: "real \<Rightarrow> ('e, 'u) RetryOption" where
  "new_MaxAttemptsRetryAllowed maxAttempts = MaxAttemptsRetryAllowed 0 maxAttempts"

definition new_LinearBackoff :: "real \<Rightarrow> ('e, 'u) RetryOption" where
  "new_LinearBackoff d = LinearBackoff 0 0 None d"

definition new_MaxTimeout :: "real \<Rightarrow> ('e, 'u) RetryOption" where
  "new_MaxTimeout totalTimeoutMs = MaxTimeout totalTimeoutMs"

text \<open>
  \<^verbatim>\<open>constructor(minJitterMs = 100, maxJitterMs = 250) { assert(maxJitterMs > minJitterMs); }\<close>:
  an omitted argument is \<open>None\<close> and takes its default before the assertion is evaluated.
\<close>

definition new_DelayJitter ::
  "real option \<Rightarrow> real option \<Rightarrow> 'e thrown + ('e, 'u) RetryOption" where
  "new_DelayJitter minArg maxArg =
     (let minJitterMs = (case minArg of None \<Rightarrow> 100 | Some v \<Rightarrow> v);
          maxJitterMs = (case maxArg of None \<Rightarrow> 250 | Some v \<Rightarrow> v)
      in case assert (maxJitterMs > minJitterMs) of
           Some x \<Rightarrow> Inl x
         | None \<Rightarrow> Inr (DelayJitter minJitterMs maxJitterMs))"

definition new_RetriableExceptions :: "'e thrown list \<Rightarrow> ('e, 'u) RetryOption" where
  "new_RetriableExceptions errors = RetriableExceptions errors"

subsection \<open>Methods\<close>

text \<open>
  \<^verbatim>\<open>this.attempts++; if (this.attempts >= this.maxAttempts) throw new MaxAttemptsException(..., "429")\<close>
\<close>

definition MaxAttemptsRetryAllowed_checkRetryAllowed ::
  "nat \<Rightarrow> real \<Rightarrow> ('e, 'u) check_method" where
  "MaxAttemptsRetryAllowed_checkRetryAllowed attempts maxAttempts n ts err w =
     (let attempts1 = attempts + 1
      in if real attempts1 \<ge> maxAttempts
         then (Some (MaxAttemptsException attempts1 ''429''),
               MaxAttemptsRetryAllowed attempts1 maxAttempts, w)
         else (None, MaxAttemptsRetryAllowed attempts1 maxAttempts, w))"

text \<open>
  \<^verbatim>\<open>this.currentDelay += this.delay; const delay = previousDelayMs + this.currentDelay;\<close>
  then a timer is armed for \<^verbatim>\<open>delay\<close> and kept in \<^verbatim>\<open>this.timeout\<close>, and
  \<^verbatim>\<open>this.currentDelay\<close> is returned.
\<close>

definition LinearBackoff_retryDelayMs ::
  "nat \<Rightarrow> real \<Rightarrow> real option \<Rightarrow> real \<Rightarrow> ('e, 'u) delay_method" where
  "LinearBackoff_retryDelayMs attempts currentDelay tmo d previousDelayMs ts w =
     (let currentDelay1 = currentDelay + d;
          delay1 = previousDelayMs + currentDelay1;
          w1 = setTimeout delay1 w
      in (currentDelay1, LinearBackoff attempts currentDelay1 (Some delay1) d, w1))"

definition throwTimeout :: "real \<Rightarrow> 'e thrown" where
  "throwTimeout totalTimeoutMs = MaxTimeoutException totalTimeoutMs ''408''"

text \<open>
  \<^verbatim>\<open>if (timestamp.getTime() >= this.totalTimeoutMs) { this.throwTimeout(); }\<close>, then a
  timer is armed for \<^verbatim>\<open>this.totalTimeoutMs - timestamp.getTime()\<close>.
\<close>

definition MaxTimeout_checkRetryAllowed :: "real \<Rightarrow> ('e, 'u) check_method" where
  "MaxTimeout_checkRetryAllowed totalTimeoutMs n ts err w =
     (if ts \<ge> totalTimeoutMs
      then (Some (throwTimeout totalTimeoutMs), MaxTimeout totalTimeoutMs, w)
      else (None, MaxTimeout totalTimeoutMs, setTimeout (totalTimeoutMs - ts) w))"

text \<open>
  \<^verbatim>\<open>return Math.random()*(this.maxJitterMs-this.minJitterMs) + previousDelayMs;\<close>
\<close>

definition DelayJitter_retryDelayMs :: "real \<Rightarrow> real \<Rightarrow> ('e, 'u) delay_method" where
  "DelayJitter_retryDelayMs minJitterMs maxJitterMs previousDelayMs ts w =
     (let (r, w1) = Math_random w
      in (r * (maxJitterMs - minJitterMs) + previousDelayMs,
          DelayJitter minJitterMs maxJitterMs, w1))"

text \<open>
  \<^verbatim>\<open>if (this.errors.includes(err)) { return; } else { throw new NonretriableException(..., "500", err); }\<close>
\<close>

definition RetriableExceptions_checkRetryAllowed ::
  "'e thrown list \<Rightarrow> ('e, 'u) check_method" where
  "RetriableExceptions_checkRetryAllowed errors n ts err w =
     (if err \<in> set errors
      then (None, RetriableExceptions errors, w)
      else (Some (NonretriableException err ''500''), RetriableExceptions errors, w))"

text \<open>
  Reading the property \<^verbatim>\<open>opt.checkRetryAllowed\<close> or \<^verbatim>\<open>opt.retryDelayMs\<close>: \<open>None\<close> when the
  object has no such method (the property is undefined), else the method bound to the
  object.
\<close>

fun checkRetryAllowed :: "('e, 'u) RetryOption \<Rightarrow> ('e, 'u) check_method option" where
  "checkRetryAllowed (MaxAttemptsRetryAllowed attempts maxAttempts) =
     Some (MaxAttemptsRetryAllowed_checkRetryAllowed attempts maxAttempts)"
| "checkRetryAllowed (LinearBackoff attempts currentDelay tmo d) = None"
| "checkRetryAllowed (MaxTimeout totalTimeoutMs) =
     Some (MaxTimeout_checkRetryAllowed totalTimeoutMs)"
| "checkRetryAllowed (DelayJitter minJitterMs maxJitterMs) = None"
| "checkRetryAllowed (RetriableExceptions errors) =
     Some (RetriableExceptions_checkRetryAllowed errors)"
| "checkRetryAllowed (Custom u None dm) = None"
| "checkRetryAllowed (Custom u (Some c) dm) =
     Some (\<lambda>n ts err w. case c n ts err u of (x, u1) \<Rightarrow> (x, Custom u1 (Some c) dm, w))"

fun retryDelayMs :: "('e, 'u) RetryOption \<Rightarrow> ('e, 'u) delay_method option" where
  "retryDelayMs (MaxAttemptsRetryAllowed attempts maxAttempts) = None"
| "retryDelayMs (LinearBackoff attempts currentDelay tmo d) =
     Some (LinearBackoff_retryDelayMs attempts currentDelay tmo d)"
| "retryDelayMs (MaxTimeout totalTimeoutMs) = None"
| "retryDelayMs (DelayJitter minJitterMs maxJitterMs) =
     Some (DelayJitter_retryDelayMs minJitterMs maxJitterMs)"
| "retryDelayMs (RetriableExceptions errors) = None"
| "retryDelayMs (Custom u cm None) = None"
| "retryDelayMs (Custom u cm (Some dm)) =
     Some (\<lambda>previousDelayMs ts w.
             case dm previousDelayMs ts u of (out, u1) \<Rightarrow> (out, Custom u1 cm (Some dm), w))"


section \<open>The class RetryHelper\<close>

text \<open>
  What awaiting the promise of the wrapped operation gives: a value, a rejection (or a
  synchronous throw, which the same \<^verbatim>\<open>try\<close> catches), or nothing, ever.
\<close>

datatype ('v, 'e) settled = Resolves 'v | Rejects 'e | Pending

text \<open>
  What the promise returned by \<^verbatim>\<open>run()\<close> does: \<open>Resolved None\<close> is resolving to
  \<^verbatim>\<open>undefined\<close>, \<open>Resolved (Some v)\<close> is resolving to the value \<open>v\<close>.
\<close>

datatype ('v, 'e) outcome = Resolved "'v option" | Rejected "'e thrown" | NeverSettles

text \<open>
  The wrapped operation \<^verbatim>\<open>f\<close> is a function of its arguments and of a state \<open>'s\<close> of its
  own, which it may change at each invocation. \<^verbatim>\<open>args\<close> is optional: \<open>None\<close> is undefined.
  \<^verbatim>\<open>timeoutErr\<close> and \<^verbatim>\<open>timeout\<close> have no initialiser.
\<close>

record ('v, 'e, 'a, 's, 'u) RetryHelper =
  startTimestamp :: real
  f :: "'a list \<Rightarrow> 's \<Rightarrow> ('v, 'e) settled \<times> 's"
  args :: "'a list option"
  options :: "('e, 'u) RetryOption list"
  timeoutErr :: "'e thrown option"
  timeout :: "bool option"

text \<open>
  The constructor, at the clock reading \<open>now\<close>; the parameter \<^verbatim>\<open>options\<close> defaults to the
  empty list.
\<close>

definition new_RetryHelper ::
  "real \<Rightarrow> ('a list \<Rightarrow> 's \<Rightarrow> ('v, 'e) settled \<times> 's) \<Rightarrow> 'a list option \<Rightarrow>
   ('e, 'u) RetryOption list option \<Rightarrow> ('v, 'e, 'a, 's, 'u) RetryHelper" where
  "new_RetryHelper now op as opts =
     \<lparr>startTimestamp = now, f = op, args = as,
      options = (case opts of None \<Rightarrow> [] | Some os \<Rightarrow> os),
      timeoutErr = None, timeout = None\<rparr>"

definition add ::
  "('e, 'u) RetryOption \<Rightarrow> ('v, 'e, 'a, 's, 'u) RetryHelper \<Rightarrow> ('v, 'e, 'a, 's, 'u) RetryHelper"
  where
  "add opt h = h\<lparr>options := options h @ [opt]\<rparr>"

text \<open>
  One pass through the body of \<^verbatim>\<open>for (var opt of this.options)\<close>, for the option at index
  \<open>i\<close>: the thrown value if the pass throws, the option, \<^verbatim>\<open>delayMs\<close> and the world after it.
\<close>

definition option_round ::
  "nat \<Rightarrow> ('e, 'u) RetryOption \<Rightarrow> nat \<Rightarrow> real \<Rightarrow> 'e thrown \<Rightarrow> real \<Rightarrow> world \<Rightarrow>
   'e thrown option \<times> ('e, 'u) RetryOption \<times> real \<times> world" where
  "option_round i opt n ts err delayMs w =
     (case (case checkRetryAllowed opt of
              None \<Rightarrow> (None, opt, w)
            | Some m \<Rightarrow> m n ts err (emit (CheckCalled i) w)) of
        (Some x, opt1, w1) \<Rightarrow> (Some x, opt1, delayMs, w1)
      | (None, opt1, w1) \<Rightarrow>
          (case retryDelayMs opt1 of
             None \<Rightarrow> (None, opt1, delayMs, w1)
           | Some m \<Rightarrow>
               (case m delayMs ts w1 of
                  (delayMs1, opt2, w2) \<Rightarrow>
                    (None, opt2, delayMs1, emit (DelayCalled i delayMs delayMs1) w2))))"

text \<open>The loop over the options from index \<open>i\<close> on; a throw leaves it at once.\<close>

fun for_options ::
  "nat \<Rightarrow> ('e, 'u) RetryOption list \<Rightarrow> nat \<Rightarrow> real \<Rightarrow> 'e thrown \<Rightarrow> real \<Rightarrow> world \<Rightarrow>
   'e thrown option \<times> ('e, 'u) RetryOption list \<times> real \<times> world" where
  "for_options i [] n ts err delayMs w = (None, [], delayMs, w)"
| "for_options i (opt # rest) n ts err delayMs w =
     (case option_round i opt n ts err delayMs w of
        (Some x, opt1, delayMs1, w1) \<Rightarrow> (Some x, opt1 # rest, delayMs1, w1)
      | (None, opt1, delayMs1, w1) \<Rightarrow>
          (case for_options (Suc i) rest n ts err delayMs1 w1 of
             (x, rest1, delayMs2, w2) \<Rightarrow> (x, opt1 # rest1, delayMs2, w2)))"

text \<open>
  What one call of \<^verbatim>\<open>run()\<close> leaves behind: how its promise settles, the helper (its
  options are mutated in place), the state of the wrapped operation, the last value of
  the local variable \<^verbatim>\<open>delayMs\<close>, and the world.
\<close>

record ('v, 'e, 'a, 's, 'u) ran =
  outcome :: "('v, 'e) outcome"
  helper :: "('v, 'e, 'a, 's, 'u) RetryHelper"
  op_state :: 's
  delayMs_end :: real
  world_end :: world

text \<open>
  The \<^verbatim>\<open>catch (err)\<close> block of \<^verbatim>\<open>run\<close>, with \<open>ts\<close> the \<^verbatim>\<open>new Date()\<close> read there. A throw of
  the loop rejects the promise of \<^verbatim>\<open>run\<close>; after the loop the function ends, and the promise
  resolves to undefined.
\<close>

definition catch_block ::
  "('v, 'e, 'a, 's, 'u) RetryHelper \<Rightarrow> 's \<Rightarrow> nat \<Rightarrow> real \<Rightarrow> 'e thrown \<Rightarrow> real \<Rightarrow> world \<Rightarrow>
   ('v, 'e, 'a, 's, 'u) ran" where
  "catch_block h s n ts err delayMs w =
     (case for_options 0 (options h) n ts err delayMs w of
        (x, opts1, delayMs1, w1) \<Rightarrow>
          \<lparr>outcome = (case x of Some e \<Rightarrow> Rejected e | None \<Rightarrow> Resolved None),
           helper = h\<lparr>options := opts1\<rparr>, op_state = s,
           delayMs_end = delayMs1, world_end = w1\<rparr>)"

text \<open>
  \<^verbatim>\<open>run()\<close>, called when the wrapped operation is in state \<open>s\<close>; \<open>now\<close> is the clock
  reading taken in the \<^verbatim>\<open>catch\<close> block. The symbol \<^verbatim>\<open>TIMEOUT\<close> has an ambient declaration
  only (\<^verbatim>\<open>declare const\<close>); it is taken to be bound, so that registering the listener
  does not throw. The listener \<^verbatim>\<open>onErr\<close> is registered; it would set
  \<^verbatim>\<open>timeout\<close> and \<^verbatim>\<open>timeoutErr\<close>, but nothing emits \<^verbatim>\<open>TIMEOUT\<close> before \<^verbatim>\<open>run\<close> settles, so
  both fields stay as they are. In the \<^verbatim>\<open>try\<close> block \<^verbatim>\<open>numAttempts++\<close> comes first; then
  \<^verbatim>\<open>this.f(...this.args)\<close> throws a TypeError without calling \<^verbatim>\<open>f\<close> when \<^verbatim>\<open>args\<close> is
  undefined, and calls \<^verbatim>\<open>f\<close> otherwise. The awaited value is bound to the constant
  \<^verbatim>\<open>result\<close> and the function ends without a \<^verbatim>\<open>return\<close>.
\<close>

definition run ::
  "('v, 'e, 'a, 's, 'u) RetryHelper \<Rightarrow> 's \<Rightarrow> real \<Rightarrow> world \<Rightarrow> ('v, 'e, 'a, 's, 'u) ran" where
  "run h s now w =
     (let n0 = (0::nat);
          delayMs = (0::real);
          w1 = emit EmitterOn w;
          n1 = n0 + 1
      in case args h of
           None \<Rightarrow> catch_block h s n1 now TypeError delayMs w1
         | Some as \<Rightarrow>
             (case f h as s of
                (Resolves result, s1) \<Rightarrow>
                  \<lparr>outcome = Resolved None, helper = h, op_state = s1,
                   delayMs_end = delayMs, world_end = emit CallF w1\<rparr>
              | (Rejects e, s1) \<Rightarrow>
                  catch_block h s1 n1 now (OpError e) delayMs (emit CallF w1)
              | (Pending, s1) \<Rightarrow>
                  \<lparr>outcome = NeverSettles, helper = h, op_state = s1,
                   delayMs_end = delayMs, world_end = emit CallF w1\<rparr>))"


section \<open>Reading the log\<close>

text \<open>
  The calls of \<^verbatim>\<open>retryDelayMs\<close> in a log, in order: the index of the option, the
  \<^verbatim>\<open>previousDelayMs\<close> it received and the number it returned.
\<close>

fun delay_calls :: "event list \<Rightarrow> (nat \<times> real \<times> real) list" where
  "delay_calls [] = []"
| "delay_calls (DelayCalled i prev out # evs) = (i, prev, out) # delay_calls evs"
| "delay_calls (ev # evs) = delay_calls evs"

text \<open>
  Following a chain of such calls from the delay \<open>d\<close>: every call must have received what
  the call before it returned (the first one \<open>d\<close>); the result is what the last call
  returned (\<open>d\<close> itself when there is no call), \<open>None\<close> when a call received anything else.
\<close>

fun chain :: "real \<Rightarrow> (nat \<times> real \<times> real) list \<Rightarrow> real option" where
  "chain d [] = Some d"
| "chain d ((i, prev, out) # cs) = (if prev = d then chain out cs else None)"

fun is_timer :: "event \<Rightarrow> bool" where
  "is_timer (SetTimeout ms) = True"
| "is_timer ev = False"

definition timers_only :: "event list \<Rightarrow> bool" where
  "timers_only evs = list_all is_timer evs"


section \<open>Concrete inputs\<close>

text \<open>
  Two worlds with an empty log: in \<open>world0\<close> every sample of \<^verbatim>\<open>Math.random()\<close> is 0, in
  \<open>half_world\<close> it is 1/2.
\<close>

definition world0 :: world where
  "world0 = \<lparr>log = [], random = (\<lambda>k. 0), drawn = 0\<rparr>"

definition half_world :: world where
  "half_world = \<lparr>log = [], random = (\<lambda>k. 1 / 2), drawn = 0\<rparr>"

text \<open>
  Two wrapped operations whose state is the number of times they have been invoked: one
  rejects at every invocation; the other rejects at its first two invocations and resolves
  to 3 from then on.
\<close>

definition always_fails :: "unit list \<Rightarrow> nat \<Rightarrow> (nat, string) settled \<times> nat" where
  "always_fails as calls = (Rejects ''boom'', Suc calls)"

definition fails_twice_then_3 :: "unit list \<Rightarrow> nat \<Rightarrow> (nat, string) settled \<times> nat" where
  "fails_twice_then_3 as calls =
     (if calls < 2 then Rejects ''boom'' else Resolves 3, Suc calls)"

text \<open>The helpers that the evaluations below run.\<close>

definition max3_helper :: "(nat, string, unit, nat, unit) RetryHelper" where
  "max3_helper =
     new_RetryHelper 0 always_fails (Some []) (Some [new_MaxAttemptsRetryAllowed 3])"

definition timeout_helper :: "(nat, string, unit, nat, unit) RetryHelper" where
  "timeout_helper =
     new_RetryHelper 1000000 always_fails (Some []) (Some [new_MaxTimeout 50])"

definition scenario_helper :: "(nat, string, unit, nat, unit) RetryHelper" where
  "scenario_helper =
     new_RetryHelper 0 fails_twice_then_3 (Some [])
       (Some [new_MaxAttemptsRetryAllowed 5, new_LinearBackoff 10])"

definition veto_helper :: "(nat, string, unit, nat, unit) RetryHelper" where
  "veto_helper =
     new_RetryHelper 0 always_fails (Some [])
       (Some [new_LinearBackoff 10, new_MaxAttemptsRetryAllowed 1, new_RetriableExceptions []])"

definition fold_helper :: "(nat, string, unit, nat, unit) RetryHelper" where
  "fold_helper =
     new_RetryHelper 0 always_fails (Some [])
       (Some [new_LinearBackoff 10, new_MaxAttemptsRetryAllowed 5, DelayJitter 100 250])"


section \<open>The backoff policies: what getDelay returns\<close>

lemma getDelays_map:
  "fst (getDelays n p) = map (\<lambda>k. real (numAttempts p + Suc k) * delay p) [0..<n]"
proof (induction n arbitrary: p)
  case 0
  show ?case by simp
next
  case (Suc n)
  have "fst (getDelays (Suc n) p) =
          fst (getDelay p) # fst (getDelays n (snd (getDelay p)))"
    by (simp add: case_prod_unfold Let_def)
  also have "\<dots> = real (numAttempts p + Suc 0) * delay p
                 # map (\<lambda>k. real (numAttempts p + Suc (Suc k)) * delay p) [0..<n]"
    by (simp add: Suc.IH getDelay_def Let_def)
  also have "\<dots> = map (\<lambda>k. real (numAttempts p + Suc k) * delay p) [0..<Suc n]"
    by (simp only: map_upt_Suc)
  finally show ?case .
qed

lemma getDelays_fresh:
  "fst (getDelays n (new_LinearBackoffPolicy d inc)) = map (\<lambda>k. real (Suc k) * d) [0..<n]"
  by (simp add: getDelays_map new_LinearBackoffPolicy_def)

text \<open>
  Claim C8. A linear policy constructed with delay 100 returns 100, 200, 300 on its first
  three calls of \<^verbatim>\<open>getDelay\<close>. In general, for a policy constructed with delay \<open>d\<close> (and
  any or no increment), \<open>n\<close> calls in a row return \<open>n\<close> numbers, the call at position \<open>k\<close>
  (counted from 0) returning \<open>(k + 1) * d\<close>; and for \<open>0 < d\<close> the numbers returned are
  strictly increasing.
\<close>

theorem C8_linear_policy_delays:
  "fst (getDelays 3 (new_LinearBackoffPolicy 100 inc)) = [100, 200, 300]
   \<and> length (fst (getDelays n (new_LinearBackoffPolicy d inc))) = n
   \<and> (\<forall>k<n. fst (getDelays n (new_LinearBackoffPolicy d inc)) ! k = real (k + 1) * d)
   \<and> (0 < d \<longrightarrow> sorted_wrt (<) (fst (getDelays n (new_LinearBackoffPolicy d inc))))"
proof -
  have three: "[0..<3] = [0, 1, 2]"
    by (simp add: upt_rec)
  have a: "fst (getDelays 3 (new_LinearBackoffPolicy 100 inc)) = [100, 200, 300]"
    by (simp add: getDelays_fresh three)
  have b: "length (fst (getDelays n (new_LinearBackoffPolicy d inc))) = n"
    by (simp add: getDelays_fresh)
  have c: "\<forall>k<n. fst (getDelays n (new_LinearBackoffPolicy d inc)) ! k = real (k + 1) * d"
    by (simp add: getDelays_fresh)
  have e: "sorted_wrt (<) (fst (getDelays n (new_LinearBackoffPolicy d inc)))" if "0 < d"
    using that by (simp add: getDelays_fresh sorted_wrt_iff_nth_less)
  from a b c e show ?thesis by blast
qed

text \<open>
  The theorem at delay 7 and four calls: 7, 14, 21, 28, strictly increasing, the call at
  position 2 returning 21.
\<close>

theorem C8_linear_policy_delays_witness:
  "(0::real) < 7
   \<and> fst (getDelays 4 (new_LinearBackoffPolicy 7 None)) = [7, 14, 21, 28]
   \<and> sorted_wrt (<) (fst (getDelays 4 (new_LinearBackoffPolicy 7 None)))
   \<and> (2::nat) < 4 \<and> fst (getDelays 4 (new_LinearBackoffPolicy 7 None)) ! 2 = real (2 + 1) * 7"
proof -
  have v: "fst (getDelays 4 (new_LinearBackoffPolicy 7 None)) = [7, 14, 21, 28]"
    by (simp add: getDelay_def new_LinearBackoffPolicy_def Let_def eval_nat_numeral)
  from C8_linear_policy_delays [of None 4 7] v show ?thesis by simp
qed

lemma exp_getDelays_replicate:
  "fst (exp_getDelays n p) = replicate n (delayBase p ^ exponential p)"
  by (induction n arbitrary: p) (simp_all add: exp_getDelay_def Let_def case_prod_unfold)

text \<open>
  Claim C9. An exponential policy constructed with base 2 and exponent 5 returns 32 at
  every one of \<open>n\<close> calls of \<^verbatim>\<open>getDelay\<close> in a row. In general a policy constructed with
  base \<open>b\<close> and exponent \<open>e\<close> returns \<open>b ^ e\<close> at every call; and whatever the state of a
  policy, the attempt counter included, a call returns its base raised to its exponent.
\<close>

theorem C9_exponential_policy_constant:
  "fst (exp_getDelays n (new_ExponentialBackoffPolicy 2 5)) = replicate n 32
   \<and> fst (exp_getDelays n (new_ExponentialBackoffPolicy b e)) = replicate n (b ^ e)
   \<and> fst (exp_getDelay p) = delayBase p ^ exponential p"
  by (simp add: exp_getDelays_replicate new_ExponentialBackoffPolicy_def exp_getDelay_def Let_def)


section \<open>The jitter option\<close>

text \<open>
  Claim C7. Constructing a \<^verbatim>\<open>DelayJitter\<close> with \<open>maxJitterMs \<le> minJitterMs\<close> fails in the
  constructor with \<open>InvalidConfiguration\<close>, so that no option object exists that a helper
  could run; with \<open>maxJitterMs > minJitterMs\<close> the constructor returns the option. An
  omitted argument counts with its default, 100 for the minimum and 250 for the maximum.
\<close>

theorem C7_jitter_constructor:
  "(mx \<le> mn \<longrightarrow>
      (new_DelayJitter (Some mn) (Some mx) :: 'e thrown + ('e, 'u) RetryOption) = Inl InvalidConfiguration)
   \<and> (mx > mn \<longrightarrow>
      (new_DelayJitter (Some mn) (Some mx) :: 'e thrown + ('e, 'u) RetryOption) = Inr (DelayJitter mn mx))
   \<and> (mx \<le> 100 \<longrightarrow>
      (new_DelayJitter None (Some mx) :: 'e thrown + ('e, 'u) RetryOption) = Inl InvalidConfiguration)
   \<and> (mx > 100 \<longrightarrow>
      (new_DelayJitter None (Some mx) :: 'e thrown + ('e, 'u) RetryOption) = Inr (DelayJitter 100 mx))
   \<and> (250 \<le> mn \<longrightarrow>
      (new_DelayJitter (Some mn) None :: 'e thrown + ('e, 'u) RetryOption) = Inl InvalidConfiguration)
   \<and> (250 > mn \<longrightarrow>
      (new_DelayJitter (Some mn) None :: 'e thrown + ('e, 'u) RetryOption) = Inr (DelayJitter mn 250))
   \<and> (new_DelayJitter None None :: 'e thrown + ('e, 'u) RetryOption) = Inr (DelayJitter 100 250)"
  by (simp add: new_DelayJitter_def assert_def)

text \<open>
  The theorem at equal bounds (250 and 250), which the constructor refuses, and at the
  bounds 100 and 250, which it accepts.
\<close>

theorem C7_jitter_constructor_witness:
  "(250::real) \<le> 250
   \<and> (new_DelayJitter (Some 250) (Some 250) :: string thrown + (string, unit) RetryOption)
       = Inl InvalidConfiguration
   \<and> (250::real) > 100
   \<and> (new_DelayJitter (Some 100) (Some 250) :: string thrown + (string, unit) RetryOption)
       = Inr (DelayJitter 100 250)"
  using C7_jitter_constructor [where ?'e = string and ?'u = unit, of 250 250]
    C7_jitter_constructor [where ?'e = string and ?'u = unit, of 250 100]
  by simp


section \<open>What the methods of an option do to the world\<close>

lemma delay_calls_append: "delay_calls (xs @ ys) = delay_calls xs @ delay_calls ys"
  by (induction xs rule: delay_calls.induct) simp_all

lemma timers_only_delay_calls: "timers_only evs \<Longrightarrow> delay_calls evs = []"
  by (induction evs rule: delay_calls.induct) (simp_all add: timers_only_def)

lemma timers_only_append: "timers_only (xs @ ys) = (timers_only xs \<and> timers_only ys)"
  by (simp add: timers_only_def)

lemma timers_only_set: "timers_only evs \<Longrightarrow> ev \<in> set evs \<Longrightarrow> \<exists>ms. ev = SetTimeout ms"
  by (cases ev) (auto simp: timers_only_def list_all_iff)

lemma check_thrown_indep:
  "checkRetryAllowed opt = Some m \<Longrightarrow> fst (m n ts err w) = fst (m n ts err w')"
  by (cases opt rule: checkRetryAllowed.cases)
     (auto simp: MaxAttemptsRetryAllowed_checkRetryAllowed_def Let_def
        MaxTimeout_checkRetryAllowed_def RetriableExceptions_checkRetryAllowed_def
        split: prod.splits)

lemma check_effects:
  assumes "checkRetryAllowed opt = Some m" and "m n ts err w = (x, opt1, w1)"
  shows "(\<exists>evs. log w1 = log w @ evs \<and> timers_only evs)
    \<and> random w1 = random w \<and> drawn w1 = drawn w
    \<and> (retryDelayMs opt1 = None) = (retryDelayMs opt = None)"
proof (cases opt rule: checkRetryAllowed.cases)
  case (1 attempts maxAttempts)
  with assms show ?thesis
    by (auto simp: MaxAttemptsRetryAllowed_checkRetryAllowed_def Let_def timers_only_def
          split: if_splits)
next
  case (3 totalTimeoutMs)
  with assms show ?thesis
    by (auto simp: MaxTimeout_checkRetryAllowed_def setTimeout_def emit_def timers_only_def
          split: if_splits)
next
  case (5 errors)
  with assms show ?thesis
    by (auto simp: RetriableExceptions_checkRetryAllowed_def timers_only_def split: if_splits)
next
  case (7 u c dm)
  with assms show ?thesis
    by (cases dm) (auto simp: timers_only_def split: prod.splits)
qed (use assms in simp_all)

lemma delay_effects:
  assumes "retryDelayMs opt = Some m" and "m d ts w = (d1, opt1, w1)"
  shows "\<exists>evs. log w1 = log w @ evs \<and> timers_only evs"
  using assms
  by (cases opt rule: retryDelayMs.cases)
     (auto simp: LinearBackoff_retryDelayMs_def DelayJitter_retryDelayMs_def Let_def
        Math_random_def setTimeout_def emit_def timers_only_def split: prod.splits)


lemma option_round_thrown:
  "fst (option_round i opt n ts err d w) =
     (case checkRetryAllowed opt of None \<Rightarrow> None | Some m \<Rightarrow> fst (m n ts err w0))"
proof (cases "checkRetryAllowed opt")
  case None
  then show ?thesis
    by (simp add: option_round_def split: option.splits prod.splits)
next
  case (Some m)
  obtain x opt1 w1 where r: "m n ts err (emit (CheckCalled i) w) = (x, opt1, w1)"
    by (cases "m n ts err (emit (CheckCalled i) w)") auto
  have "fst (m n ts err w0) = x"
    using check_thrown_indep [OF Some, of n ts err w0 "emit (CheckCalled i) w"] r by simp
  with Some r show ?thesis
    by (simp add: option_round_def split: option.splits prod.splits)
qed

lemma option_round_events:
  assumes "option_round i opt n ts err d w = (x, opt1, d1, w1)"
  shows "\<exists>evs. log w1 = log w @ evs
           \<and> (\<forall>ev\<in>set evs. ev = CheckCalled i \<or> (\<exists>p out. ev = DelayCalled i p out) \<or> is_timer ev)
           \<and> delay_calls evs = (if x = None \<and> retryDelayMs opt \<noteq> None then [(i, d, d1)] else [])
           \<and> (x \<noteq> None \<or> retryDelayMs opt = None \<longrightarrow> d1 = d)"
proof -
  obtain xc optc wc where c:
    "(case checkRetryAllowed opt of None \<Rightarrow> (None, opt, w)
      | Some m \<Rightarrow> m n ts err (emit (CheckCalled i) w)) = (xc, optc, wc)"
    by (metis prod_cases3)
  have c_log: "\<exists>evs. log wc = log w @ evs
                 \<and> (\<forall>ev\<in>set evs. ev = CheckCalled i \<or> is_timer ev) \<and> delay_calls evs = []"
   and c_del: "(retryDelayMs optc = None) = (retryDelayMs opt = None)"
  proof -
    show "\<exists>evs. log wc = log w @ evs
                 \<and> (\<forall>ev\<in>set evs. ev = CheckCalled i \<or> is_timer ev) \<and> delay_calls evs = []"
    proof (cases "checkRetryAllowed opt")
      case None
      with c show ?thesis by simp
    next
      case (Some m)
      with c have "m n ts err (emit (CheckCalled i) w) = (xc, optc, wc)" by simp
      from check_effects [OF Some this] obtain tm where
        "log wc = log (emit (CheckCalled i) w) @ tm" "timers_only tm" by blast
      then have "log wc = log w @ (CheckCalled i # tm)"
        and "\<forall>ev\<in>set (CheckCalled i # tm). ev = CheckCalled i \<or> is_timer ev"
        and "delay_calls (CheckCalled i # tm) = []"
        by (auto simp: emit_def timers_only_def list_all_iff timers_only_delay_calls)
      then show ?thesis by blast
    qed
    show "(retryDelayMs optc = None) = (retryDelayMs opt = None)"
    proof (cases "checkRetryAllowed opt")
      case None
      with c show ?thesis by simp
    next
      case (Some m)
      with c have "m n ts err (emit (CheckCalled i) w) = (xc, optc, wc)" by simp
      from check_effects [OF Some this] show ?thesis by simp
    qed
  qed
  from c_log obtain evc where evc: "log wc = log w @ evc"
    "\<forall>ev\<in>set evc. ev = CheckCalled i \<or> is_timer ev" "delay_calls evc = []" by blast
  show ?thesis
  proof (cases xc)
    case (Some e)
    with assms c have "x = Some e" "d1 = d" "w1 = wc"
      by (simp_all add: option_round_def)
    with evc show ?thesis by auto
  next
    case None
    note xc = None
    show ?thesis
    proof (cases "retryDelayMs optc")
      case None
      with assms c xc have "x = None" "d1 = d" "w1 = wc"
        by (simp_all add: option_round_def)
      with evc None c_del show ?thesis by auto
    next
      case (Some m)
      obtain dm optm wm where m: "m d ts wc = (dm, optm, wm)"
        by (metis prod_cases3)
      with assms c xc Some have res: "x = None" "d1 = dm"
        "w1 = emit (DelayCalled i d dm) wm"
        by (auto simp: option_round_def)
      from delay_effects [OF Some m] obtain tm where
        tm: "log wm = log wc @ tm" "timers_only tm" by blast
      let ?evs = "evc @ tm @ [DelayCalled i d dm]"
      have "log w1 = log w @ ?evs"
        using res tm evc by (simp add: emit_def)
      moreover have "\<forall>ev\<in>set ?evs. ev = CheckCalled i \<or> (\<exists>p out. ev = DelayCalled i p out) \<or> is_timer ev"
        using evc(2) tm(2) by (auto simp: timers_only_def list_all_iff)
      moreover have "delay_calls ?evs = [(i, d, d1)]"
        using evc(3) tm(2) res by (simp add: delay_calls_append timers_only_delay_calls)
      moreover have "retryDelayMs opt \<noteq> None"
        using c_del Some by simp
      ultimately show ?thesis using res by auto
    qed
  qed
qed


section \<open>The loop over the options\<close>

lemma chain_append:
  "chain d (cs @ cs') = (case chain d cs of None \<Rightarrow> None | Some d1 \<Rightarrow> chain d1 cs')"
  by (induction d cs rule: chain.induct) simp_all

lemma for_options_Cons_Some:
  "option_round i opt n ts err d w = (Some e, opta, da, wa) \<Longrightarrow>
   for_options i (opt # rest) n ts err d w = (Some e, opta # rest, da, wa)"
  by simp

lemma for_options_Cons_None:
  "option_round i opt n ts err d w = (None, opta, da, wa) \<Longrightarrow>
   for_options (Suc i) rest n ts err da wa = (xb, restb, db, wb) \<Longrightarrow>
   for_options i (opt # rest) n ts err d w = (xb, opta # restb, db, wb)"
  by simp

lemma for_options_events:
  assumes "for_options i opts n ts err d w = (x, opts1, d1, w1)"
  shows "\<exists>evs. log w1 = log w @ evs
           \<and> (\<forall>ev\<in>set evs.
                 (\<exists>j. i \<le> j \<and> j < i + length opts
                      \<and> (ev = CheckCalled j \<or> (\<exists>p out. ev = DelayCalled j p out)))
                 \<or> is_timer ev)
           \<and> chain d (delay_calls evs) = Some d1
           \<and> length opts1 = length opts
           \<and> (x = None \<longrightarrow>
                map fst (delay_calls evs) =
                map fst (filter (\<lambda>(j, opt). retryDelayMs opt \<noteq> None) (enumerate i opts)))"
  using assms
proof (induction opts arbitrary: i d w x opts1 d1 w1)
  case Nil
  then show ?case by simp
next
  case (Cons opt rest)
  obtain xa opta da wa where a: "option_round i opt n ts err d w = (xa, opta, da, wa)"
    by (metis prod_cases4)
  from option_round_events [OF a] obtain eva where eva0:
    "log wa = log w @ eva
     \<and> (\<forall>ev\<in>set eva. ev = CheckCalled i \<or> (\<exists>p out. ev = DelayCalled i p out) \<or> is_timer ev)
     \<and> delay_calls eva = (if xa = None \<and> retryDelayMs opt \<noteq> None then [(i, d, da)] else [])
     \<and> (xa \<noteq> None \<or> retryDelayMs opt = None \<longrightarrow> da = d)" ..
  note eva = eva0 [THEN conjunct1] eva0 [THEN conjunct2, THEN conjunct1]
    eva0 [THEN conjunct2, THEN conjunct2, THEN conjunct1]
    eva0 [THEN conjunct2, THEN conjunct2, THEN conjunct2]
  have chain_a: "chain d (delay_calls eva) = Some da"
    using eva(3,4) by auto
  show ?case
  proof (cases xa)
    case (Some e)
    have res: "x = Some e" "opts1 = opta # rest" "d1 = da" "w1 = wa"
      using Cons.prems for_options_Cons_Some [OF a [unfolded Some], of rest] by simp_all
    have "\<forall>ev\<in>set eva.
            (\<exists>j. i \<le> j \<and> j < i + length (opt # rest)
                 \<and> (ev = CheckCalled j \<or> (\<exists>p out. ev = DelayCalled j p out)))
            \<or> is_timer ev"
      using eva(2) by auto
    with res eva(1) chain_a show ?thesis by auto
  next
    case None
    obtain xb restb db wb where b:
      "for_options (Suc i) rest n ts err da wa = (xb, restb, db, wb)"
      by (metis prod_cases4)
    have res: "x = xb" "opts1 = opta # restb" "d1 = db" "w1 = wb"
      using Cons.prems for_options_Cons_None [OF a [unfolded None] b] by simp_all
    from Cons.IH [OF b] obtain evb where evb0:
      "log wb = log wa @ evb
       \<and> (\<forall>ev\<in>set evb.
         (\<exists>j. Suc i \<le> j \<and> j < Suc i + length rest
              \<and> (ev = CheckCalled j \<or> (\<exists>p out. ev = DelayCalled j p out)))
         \<or> is_timer ev)
       \<and> chain da (delay_calls evb) = Some db
       \<and> length restb = length rest
       \<and> (xb = None \<longrightarrow>
         map fst (delay_calls evb) =
         map fst (filter (\<lambda>(j, opt). retryDelayMs opt \<noteq> None) (enumerate (Suc i) rest)))" ..
    note evb = evb0 [THEN conjunct1] evb0 [THEN conjunct2, THEN conjunct1]
      evb0 [THEN conjunct2, THEN conjunct2, THEN conjunct1]
      evb0 [THEN conjunct2, THEN conjunct2, THEN conjunct2, THEN conjunct1]
      evb0 [THEN conjunct2, THEN conjunct2, THEN conjunct2, THEN conjunct2]
    have 1: "log w1 = log w @ (eva @ evb)"
      using res eva(1) evb(1) by simp
    have 2: "\<forall>ev\<in>set (eva @ evb).
            (\<exists>j. i \<le> j \<and> j < i + length (opt # rest)
                 \<and> (ev = CheckCalled j \<or> (\<exists>p out. ev = DelayCalled j p out)))
            \<or> is_timer ev"
    proof
      fix ev assume "ev \<in> set (eva @ evb)"
      then consider "ev \<in> set eva" | "ev \<in> set evb" by auto
      then show "(\<exists>j. i \<le> j \<and> j < i + length (opt # rest)
                 \<and> (ev = CheckCalled j \<or> (\<exists>p out. ev = DelayCalled j p out)))
            \<or> is_timer ev"
      proof cases
        case 1
        with eva(2) show ?thesis by auto
      next
        case 2
        with evb(2) consider "is_timer ev"
          | j where "Suc i \<le> j" "j < Suc i + length rest"
              "ev = CheckCalled j \<or> (\<exists>p out. ev = DelayCalled j p out)"
          by blast
        then show ?thesis
        proof cases
          case 1
          then show ?thesis by simp
        next
          case 2
          then have "i \<le> j \<and> j < i + length (opt # rest)
                 \<and> (ev = CheckCalled j \<or> (\<exists>p out. ev = DelayCalled j p out))"
            by simp
          then show ?thesis by blast
        qed
      qed
    qed
    have 3: "chain d (delay_calls (eva @ evb)) = Some d1"
      using chain_a evb(3) res by (simp add: delay_calls_append chain_append)
    have 4: "length opts1 = length (opt # rest)"
      using res evb(4) by simp
    have 5: "map fst (delay_calls (eva @ evb)) =
             map fst (filter (\<lambda>(j, opt). retryDelayMs opt \<noteq> None) (enumerate i (opt # rest)))"
      if "x = None"
      using that res evb(5) eva(3) None by (simp add: delay_calls_append)
    from 1 2 3 4 5 show ?thesis by blast
  qed
qed

lemma for_options_pass:
  assumes "\<forall>p\<in>set opts. \<forall>m w0. checkRetryAllowed p = Some m \<longrightarrow> fst (m n ts err w0) = None"
  shows "fst (for_options i opts n ts err d w) = None"
  using assms
proof (induction opts arbitrary: i d w)
  case Nil
  show ?case by simp
next
  case (Cons opt rest)
  have "fst (option_round i opt n ts err d w) = None"
    using Cons.prems by (simp add: option_round_thrown [where ?w0.0 = w] split: option.splits)
  then obtain opta da wa where a: "option_round i opt n ts err d w = (None, opta, da, wa)"
    by (metis fst_conv prod_cases4)
  have "fst (for_options (Suc i) rest n ts err da wa) = None"
    using Cons.IH Cons.prems by simp
  with a show ?case
    by (auto split: prod.splits)
qed

lemma for_options_veto:
  assumes "\<forall>p\<in>set pre. \<forall>m w0. checkRetryAllowed p = Some m \<longrightarrow> fst (m n ts err w0) = None"
    and "checkRetryAllowed opt = Some mv" and "fst (mv n ts err wv) = Some x"
  shows "\<exists>pre1 opt1 d1 w1 evs.
           for_options i (pre @ opt # post) n ts err d w = (Some x, pre1 @ opt1 # post, d1, w1)
           \<and> length pre1 = length pre
           \<and> log w1 = log w @ evs
           \<and> (\<forall>ev\<in>set evs.
                 (\<exists>j. i \<le> j \<and> j \<le> i + length pre \<and> ev = CheckCalled j)
                 \<or> (\<exists>j p out. i \<le> j \<and> j < i + length pre \<and> ev = DelayCalled j p out)
                 \<or> is_timer ev)"
  using assms(1)
proof (induction pre arbitrary: i d w)
  case Nil
  have "fst (option_round i opt n ts err d w) = Some x"
    using assms(2,3) by (simp add: option_round_thrown [where ?w0.0 = wv])
  then obtain opta da wa where a: "option_round i opt n ts err d w = (Some x, opta, da, wa)"
    by (metis fst_conv prod_cases4)
  from option_round_events [OF a] obtain eva where eva:
    "log wa = log w @ eva"
    "\<forall>ev\<in>set eva. ev = CheckCalled i \<or> (\<exists>p out. ev = DelayCalled i p out) \<or> is_timer ev"
    "delay_calls eva = []"
    by auto
  have no_delay: "DelayCalled j p out \<notin> set eva" for j p out
  proof
    assume "DelayCalled j p out \<in> set eva"
    then obtain xs ys where "eva = xs @ DelayCalled j p out # ys"
      by (meson split_list)
    with eva(3) show False by (simp add: delay_calls_append)
  qed
  have "\<forall>ev\<in>set eva. ev = CheckCalled i \<or> is_timer ev"
    using eva(2) no_delay by blast
  with a eva(1) show ?case
    by (intro exI [of _ "[]"] exI [of _ opta] exI [of _ da] exI [of _ wa] exI [of _ eva]) auto
next
  case (Cons q pre)
  have "fst (option_round i q n ts err d w) = None"
    using Cons.prems by (simp add: option_round_thrown [where ?w0.0 = w] split: option.splits)
  then obtain opta da wa where a: "option_round i q n ts err d w = (None, opta, da, wa)"
    by (metis fst_conv prod_cases4)
  from option_round_events [OF a] obtain eva where eva:
    "log wa = log w @ eva"
    "\<forall>ev\<in>set eva. ev = CheckCalled i \<or> (\<exists>p out. ev = DelayCalled i p out) \<or> is_timer ev"
    by auto
  from Cons.IH [of "Suc i" da wa] Cons.prems obtain pre1 opt1 d1 w1 evb where b:
    "for_options (Suc i) (pre @ opt # post) n ts err da wa = (Some x, pre1 @ opt1 # post, d1, w1)"
    "length pre1 = length pre"
    "log w1 = log wa @ evb"
    "\<forall>ev\<in>set evb.
        (\<exists>j. Suc i \<le> j \<and> j \<le> Suc i + length pre \<and> ev = CheckCalled j)
        \<or> (\<exists>j p out. Suc i \<le> j \<and> j < Suc i + length pre \<and> ev = DelayCalled j p out)
        \<or> is_timer ev"
    by auto
  have 1: "for_options i ((q # pre) @ opt # post) n ts err d w =
             (Some x, (opta # pre1) @ opt1 # post, d1, w1)"
    using a b(1) by simp
  have 2: "log w1 = log w @ (eva @ evb)"
    using eva(1) b(3) by simp
  have 3: "\<forall>ev\<in>set (eva @ evb).
                 (\<exists>j. i \<le> j \<and> j \<le> i + length (q # pre) \<and> ev = CheckCalled j)
                 \<or> (\<exists>j p out. i \<le> j \<and> j < i + length (q # pre) \<and> ev = DelayCalled j p out)
                 \<or> is_timer ev"
  proof
    fix ev assume "ev \<in> set (eva @ evb)"
    then consider "ev \<in> set eva" | "ev \<in> set evb" by auto
    then show "(\<exists>j. i \<le> j \<and> j \<le> i + length (q # pre) \<and> ev = CheckCalled j)
                 \<or> (\<exists>j p out. i \<le> j \<and> j < i + length (q # pre) \<and> ev = DelayCalled j p out)
                 \<or> is_timer ev"
    proof cases
      case 1
      with eva(2) show ?thesis by auto
    next
      case 2
      with b(4) consider
          j where "Suc i \<le> j" "j \<le> Suc i + length pre" "ev = CheckCalled j"
        | j p out where "Suc i \<le> j" "j < Suc i + length pre" "ev = DelayCalled j p out"
        | "is_timer ev"
        by blast
      then show ?thesis
      proof cases
        case 1
        then have "i \<le> j \<and> j \<le> i + length (q # pre) \<and> ev = CheckCalled j" by simp
        then show ?thesis by blast
      next
        case 2
        then have "i \<le> j \<and> j < i + length (q # pre) \<and> ev = DelayCalled j p out" by simp
        then show ?thesis by blast
      next
        case 3
        then show ?thesis by simp
      qed
    qed
  qed
  from 1 2 3 b(2) show ?case
    by (intro exI [of _ "opta # pre1"] exI [of _ opt1] exI [of _ d1] exI [of _ w1]
          exI [of _ "eva @ evb"]) simp
qed


section \<open>One call of run\<close>

lemma run_rejects:
  "args h = Some as \<Longrightarrow> f h as s = (Rejects e, s1) \<Longrightarrow>
   run h s now w = catch_block h s1 1 now (OpError e) 0 (emit CallF (emit EmitterOn w))"
  by (simp add: run_def Let_def)

lemma catch_block_events:
  "\<exists>evs. log (world_end (catch_block h s n ts err d w)) = log w @ evs
         \<and> CallF \<notin> set evs \<and> (\<forall>ms. Sleep ms \<notin> set evs)
         \<and> chain d (delay_calls evs) = Some (delayMs_end (catch_block h s n ts err d w))"
proof -
  obtain x opts1 d1 w1 where r: "for_options 0 (options h) n ts err d w = (x, opts1, d1, w1)"
    by (metis prod_cases4)
  from for_options_events [OF r] obtain evs where evs0:
    "log w1 = log w @ evs
           \<and> (\<forall>ev\<in>set evs.
                 (\<exists>j. 0 \<le> j \<and> j < 0 + length (options h)
                      \<and> (ev = CheckCalled j \<or> (\<exists>p out. ev = DelayCalled j p out)))
                 \<or> is_timer ev)
           \<and> chain d (delay_calls evs) = Some d1
           \<and> length opts1 = length (options h)
           \<and> (x = None \<longrightarrow>
                map fst (delay_calls evs) =
                map fst (filter (\<lambda>(j, opt). retryDelayMs opt \<noteq> None) (enumerate 0 (options h))))" ..
  note evs = evs0 [THEN conjunct1] evs0 [THEN conjunct2, THEN conjunct1]
      evs0 [THEN conjunct2, THEN conjunct2, THEN conjunct1]
  have a: "CallF \<notin> set evs"
  proof
    assume "CallF \<in> set evs"
    with evs(2) have "(\<exists>j. 0 \<le> j \<and> j < 0 + length (options h)
                      \<and> (CallF = CheckCalled j \<or> (\<exists>p out. CallF = DelayCalled j p out)))
                 \<or> is_timer CallF" by (rule bspec)
    then show False by simp
  qed
  have b: "Sleep ms \<notin> set evs" for ms
  proof
    assume "Sleep ms \<in> set evs"
    with evs(2) have "(\<exists>j. 0 \<le> j \<and> j < 0 + length (options h)
                      \<and> (Sleep ms = CheckCalled j \<or> (\<exists>p out. Sleep ms = DelayCalled j p out)))
                 \<or> is_timer (Sleep ms)" by (rule bspec)
    then show False by simp
  qed
  have "world_end (catch_block h s n ts err d w) = w1"
    "delayMs_end (catch_block h s n ts err d w) = d1"
    using r by (simp_all add: catch_block_def)
  with evs(1,3) a b show ?thesis by auto
qed

lemmas engine_defs =
  run_def catch_block_def option_round_def new_RetryHelper_def
  new_MaxAttemptsRetryAllowed_def new_LinearBackoff_def new_MaxTimeout_def
  new_RetriableExceptions_def
  MaxAttemptsRetryAllowed_checkRetryAllowed_def LinearBackoff_retryDelayMs_def
  MaxTimeout_checkRetryAllowed_def throwTimeout_def DelayJitter_retryDelayMs_def
  RetriableExceptions_checkRetryAllowed_def
  Math_random_def setTimeout_def emit_def Let_def

text \<open>
  Claim C10. Whatever the helper, the state of the wrapped operation, the clock and the
  world: the calls that one \<^verbatim>\<open>run()\<close> adds to the log hold at most one invocation of the
  wrapped operation and no call of \<^verbatim>\<open>sleep\<close>. When the invocation rejects and no
  registered option's \<^verbatim>\<open>checkRetryAllowed\<close> throws for that error, the promise of \<^verbatim>\<open>run()\<close>
  resolves (to undefined) with the operation invoked exactly once: no second attempt is
  made and the delay that was computed is not waited for.
\<close>

theorem C10_run_single_attempt:
  "\<exists>evs. log (world_end (run h s now w)) = log w @ evs
     \<and> count_list evs CallF \<le> 1
     \<and> (\<forall>ms. Sleep ms \<notin> set evs)
     \<and> (\<forall>as e s1.
           args h = Some as \<and> f h as s = (Rejects e, s1)
           \<and> (\<forall>opt\<in>set (options h). \<forall>m w0.
                 checkRetryAllowed opt = Some m \<longrightarrow> fst (m 1 now (OpError e) w0) = None)
           \<longrightarrow> outcome (run h s now w) = Resolved None \<and> count_list evs CallF = 1)"
proof -
  have resolves: "outcome (run h s now w) = Resolved None"
    if "args h = Some as" "f h as s = (Rejects e, s1)"
      "\<forall>opt\<in>set (options h). \<forall>m w0.
         checkRetryAllowed opt = Some m \<longrightarrow> fst (m 1 now (OpError e) w0) = None"
    for as e s1
  proof -
    let ?w = "emit CallF (emit EmitterOn w)"
    have "fst (for_options 0 (options h) 1 now (OpError e) 0 ?w) = None"
      using that(3) by (rule for_options_pass)
    then show ?thesis
      by (auto simp: run_rejects [OF that(1,2)] catch_block_def split: prod.splits)
  qed
  show ?thesis
  proof (cases "args h")
    case None
    from catch_block_events [of h s 1 now TypeError 0 "emit EmitterOn w"]
    obtain evs where evs: "log (world_end (catch_block h s 1 now TypeError 0 (emit EmitterOn w))) =
        log (emit EmitterOn w) @ evs" "CallF \<notin> set evs" "\<forall>ms. Sleep ms \<notin> set evs"
      by blast
    let ?evs = "EmitterOn # evs"
    have "log (world_end (run h s now w)) = log w @ ?evs"
      using None evs(1) by (simp add: run_def Let_def emit_def)
    moreover have "count_list ?evs CallF = 0"
      using evs(2) by (simp add: count_list_0_iff)
    moreover have "\<forall>ms. Sleep ms \<notin> set ?evs"
      using evs(3) by simp
    ultimately show ?thesis using None
      by (intro exI [of _ ?evs]) simp
  next
    case (Some as)
    obtain r s1 where fr: "f h as s = (r, s1)"
      by (cases "f h as s") auto
    show ?thesis
    proof (cases r)
      case (Resolves v)
      let ?evs = "[EmitterOn, CallF]"
      have "log (world_end (run h s now w)) = log w @ ?evs"
        using Some fr Resolves by (simp add: run_def Let_def emit_def)
      then show ?thesis using Some fr Resolves
        by (intro exI [of _ ?evs]) simp
    next
      case Pending
      let ?evs = "[EmitterOn, CallF]"
      have "log (world_end (run h s now w)) = log w @ ?evs"
        using Some fr Pending by (simp add: run_def Let_def emit_def)
      then show ?thesis using Some fr Pending
        by (intro exI [of _ ?evs]) simp
    next
      case (Rejects e)
      let ?w = "emit CallF (emit EmitterOn w)"
      have fr': "f h as s = (Rejects e, s1)"
        using fr Rejects by simp
      from catch_block_events [of h s1 1 now "OpError e" 0 ?w]
      obtain evs where evs: "log (world_end (catch_block h s1 1 now (OpError e) 0 ?w)) =
          log ?w @ evs" "CallF \<notin> set evs" "\<forall>ms. Sleep ms \<notin> set evs"
        by blast
      let ?evs = "EmitterOn # CallF # evs"
      have 1: "log (world_end (run h s now w)) = log w @ ?evs"
        using evs(1) by (simp add: run_rejects [OF Some fr'] emit_def)
      have 2: "count_list ?evs CallF = 1"
        using evs(2) by (simp add: count_list_0_iff)
      have 3: "\<forall>ms. Sleep ms \<notin> set ?evs"
        using evs(3) by simp
      have 4: "outcome (run h s now w) = Resolved None"
        if "\<forall>opt\<in>set (options h). \<forall>m w0.
             checkRetryAllowed opt = Some m \<longrightarrow> fst (m 1 now (OpError e) w0) = None"
        using resolves [OF Some fr' that] .
      from 1 2 3 4 show ?thesis using Some fr'
        by (intro exI [of _ ?evs]) auto
    qed
  qed
qed

text \<open>
  The theorem for the helper of the end-to-end scenario (at most 5 attempts, linear
  backoff of 10) with the operation at its first invocation: the invocation rejects, the
  attempt guard does not throw, and \<^verbatim>\<open>run()\<close> resolves after that one invocation, without
  a call of \<^verbatim>\<open>sleep\<close>.
\<close>

theorem C10_run_single_attempt_witness:
  "args scenario_helper = Some []
   \<and> f scenario_helper [] 0 = (Rejects ''boom'', 1)
   \<and> fst (MaxAttemptsRetryAllowed_checkRetryAllowed 0 5 1 5 (OpError ''boom'') world0
           :: string thrown option \<times> (string, unit) RetryOption \<times> world) = None
   \<and> outcome (run scenario_helper 0 5 world0) = Resolved None
   \<and> count_list (log (world_end (run scenario_helper 0 5 world0))) CallF = 1
   \<and> (\<forall>ms. Sleep ms \<notin> set (log (world_end (run scenario_helper 0 5 world0))))"
proof -
  have a: "args scenario_helper = Some []"
    by (simp add: scenario_helper_def new_RetryHelper_def)
  have r: "f scenario_helper [] 0 = (Rejects ''boom'', 1)"
    by (simp add: scenario_helper_def new_RetryHelper_def fails_twice_then_3_def)
  have v: "fst (MaxAttemptsRetryAllowed_checkRetryAllowed 0 5 1 5 (OpError ''boom'') world0
           :: string thrown option \<times> (string, unit) RetryOption \<times> world) = None"
    by (simp add: MaxAttemptsRetryAllowed_checkRetryAllowed_def)
  have p: "\<forall>opt\<in>set (options scenario_helper). \<forall>m w0.
             checkRetryAllowed opt = Some m \<longrightarrow> fst (m 1 5 (OpError ''boom'') w0) = None"
    by (auto simp: scenario_helper_def new_RetryHelper_def new_MaxAttemptsRetryAllowed_def
          new_LinearBackoff_def MaxAttemptsRetryAllowed_checkRetryAllowed_def)
  from C10_run_single_attempt [of scenario_helper 0 5 world0] obtain evs where e:
    "log (world_end (run scenario_helper 0 5 world0)) = log world0 @ evs"
    "\<forall>ms. Sleep ms \<notin> set evs"
    "\<forall>as e s1.
        args scenario_helper = Some as \<and> f scenario_helper as 0 = (Rejects e, s1)
        \<and> (\<forall>opt\<in>set (options scenario_helper). \<forall>m w0.
              checkRetryAllowed opt = Some m \<longrightarrow> fst (m 1 5 (OpError e) w0) = None)
        \<longrightarrow> outcome (run scenario_helper 0 5 world0) = Resolved None
            \<and> count_list evs CallF = 1"
    by blast
  from e(3) a r p have o: "outcome (run scenario_helper 0 5 world0) = Resolved None
      \<and> count_list evs CallF = 1"
    by blast
  have l: "log (world_end (run scenario_helper 0 5 world0)) = evs"
    using e(1) by (simp add: world0_def)
  from a r v o e(2) show ?thesis
    by (simp add: l)
qed

text \<open>
  Claim C4. Let the attempt fail and let \<open>opt\<close> be the first registered option whose
  \<^verbatim>\<open>checkRetryAllowed\<close> throws for that failure: every option registered before it, in \<open>pre\<close>,
  either has no such method or does not throw. Then \<^verbatim>\<open>run()\<close> rejects with what \<open>opt\<close>
  threw; the options registered after it are left as they were; and among the calls that
  \<^verbatim>\<open>run()\<close> adds to the log there is no \<^verbatim>\<open>checkRetryAllowed\<close> of a later option and no
  \<^verbatim>\<open>retryDelayMs\<close> of \<open>opt\<close> or of a later option.
\<close>

theorem C4_first_veto_short_circuits:
  assumes "options h = pre @ opt # post"
    and "args h = Some as" and "f h as s = (Rejects e, s1)"
    and "\<forall>p\<in>set pre. \<forall>m w0.
           checkRetryAllowed p = Some m \<longrightarrow> fst (m 1 now (OpError e) w0) = None"
    and "checkRetryAllowed opt = Some mv" and "fst (mv 1 now (OpError e) wv) = Some x"
  shows "outcome (run h s now w) = Rejected x
       \<and> drop (Suc (length pre)) (options (helper (run h s now w))) = post
       \<and> (\<exists>evs. log (world_end (run h s now w)) = log w @ evs
              \<and> (\<forall>j>length pre. CheckCalled j \<notin> set evs)
              \<and> (\<forall>j\<ge>length pre. \<forall>p out. DelayCalled j p out \<notin> set evs))"
proof -
  let ?w = "emit CallF (emit EmitterOn w)"
  from for_options_veto [OF assms(4,5,6), of 0 post 0 ?w]
  obtain pre1 opt1 d1 w1 evs where r:
    "for_options 0 (pre @ opt # post) 1 now (OpError e) 0 ?w = (Some x, pre1 @ opt1 # post, d1, w1)"
    "length pre1 = length pre"
    "log w1 = log ?w @ evs"
    "\<forall>ev\<in>set evs.
        (\<exists>j. 0 \<le> j \<and> j \<le> 0 + length pre \<and> ev = CheckCalled j)
        \<or> (\<exists>j p out. 0 \<le> j \<and> j < 0 + length pre \<and> ev = DelayCalled j p out)
        \<or> is_timer ev"
    by blast
  have run_eq: "run h s now w =
      \<lparr>outcome = Rejected x, helper = h\<lparr>options := pre1 @ opt1 # post\<rparr>, op_state = s1,
       delayMs_end = d1, world_end = w1\<rparr>"
    using r(1) assms(1) by (simp add: run_rejects [OF assms(2,3)] catch_block_def)
  let ?evs = "EmitterOn # CallF # evs"
  have 1: "outcome (run h s now w) = Rejected x"
    by (simp add: run_eq)
  have 2: "drop (Suc (length pre)) (options (helper (run h s now w))) = post"
    using r(2) by (simp add: run_eq)
  have 3: "log (world_end (run h s now w)) = log w @ ?evs"
    using r(3) by (simp add: run_eq emit_def)
  have 4: "CheckCalled j \<notin> set ?evs" if "j > length pre" for j
  proof
    assume "CheckCalled j \<in> set ?evs"
    then have "CheckCalled j \<in> set evs" by simp
    with r(4) have "(\<exists>k. 0 \<le> k \<and> k \<le> 0 + length pre \<and> CheckCalled j = CheckCalled k)
        \<or> (\<exists>k p out. 0 \<le> k \<and> k < 0 + length pre \<and> CheckCalled j = DelayCalled k p out)
        \<or> is_timer (CheckCalled j)" by (rule bspec)
    with that show False by simp
  qed
  have 5: "DelayCalled j p out \<notin> set ?evs" if "j \<ge> length pre" for j p out
  proof
    assume "DelayCalled j p out \<in> set ?evs"
    then have "DelayCalled j p out \<in> set evs" by simp
    with r(4) have "(\<exists>k. 0 \<le> k \<and> k \<le> 0 + length pre \<and> DelayCalled j p out = CheckCalled k)
        \<or> (\<exists>k p' out'. 0 \<le> k \<and> k < 0 + length pre \<and> DelayCalled j p out = DelayCalled k p' out')
        \<or> is_timer (DelayCalled j p out)" by (rule bspec)
    with that show False by simp
  qed
  from 1 2 3 4 5 show ?thesis by blast
qed

text \<open>
  The theorem for a linear backoff, then an attempt guard with \<open>maxAttempts = 1\<close>, then an
  empty list of retriable exceptions (which would throw for any error): the guard throws
  at its first check, \<^verbatim>\<open>run()\<close> rejects with the guard's exception, and the third option is
  neither changed nor asked.
\<close>

theorem C4_first_veto_short_circuits_witness:
  "options veto_helper =
     [new_LinearBackoff 10] @ new_MaxAttemptsRetryAllowed 1 # [new_RetriableExceptions []]
   \<and> args veto_helper = Some []
   \<and> f veto_helper [] 0 = (Rejects ''boom'', 1)
   \<and> fst (MaxAttemptsRetryAllowed_checkRetryAllowed 0 1 1 5 (OpError ''boom'') world0
           :: string thrown option \<times> (string, unit) RetryOption \<times> world)
       = Some (MaxAttemptsException 1 ''429'')
   \<and> outcome (run veto_helper 0 5 world0) = Rejected (MaxAttemptsException 1 ''429'')
   \<and> drop 2 (options (helper (run veto_helper 0 5 world0))) = [RetriableExceptions []]
   \<and> CheckCalled 2 \<notin> set (log (world_end (run veto_helper 0 5 world0)))"
proof -
  have o: "options veto_helper =
     [new_LinearBackoff 10] @ new_MaxAttemptsRetryAllowed 1 # [new_RetriableExceptions []]"
    by (simp add: veto_helper_def new_RetryHelper_def)
  have a: "args veto_helper = Some []"
    by (simp add: veto_helper_def new_RetryHelper_def)
  have r: "f veto_helper [] 0 = (Rejects ''boom'', 1)"
    by (simp add: veto_helper_def new_RetryHelper_def always_fails_def)
  have p: "\<forall>p\<in>set [new_LinearBackoff 10 :: (string, unit) RetryOption]. \<forall>m w0.
           checkRetryAllowed p = Some m \<longrightarrow> fst (m 1 5 (OpError ''boom'') w0) = None"
    by (simp add: new_LinearBackoff_def)
  have c: "checkRetryAllowed (new_MaxAttemptsRetryAllowed 1 :: (string, unit) RetryOption) =
             Some (MaxAttemptsRetryAllowed_checkRetryAllowed 0 1)"
    by (simp add: new_MaxAttemptsRetryAllowed_def)
  have v: "fst (MaxAttemptsRetryAllowed_checkRetryAllowed 0 1 1 5 (OpError ''boom'') world0
           :: string thrown option \<times> (string, unit) RetryOption \<times> world)
       = Some (MaxAttemptsException 1 ''429'')"
    by (simp add: MaxAttemptsRetryAllowed_checkRetryAllowed_def)
  note t = C4_first_veto_short_circuits [OF o a r p c v, of world0]
  from t have 1: "outcome (run veto_helper 0 5 world0) = Rejected (MaxAttemptsException 1 ''429'')"
    by (rule conjunct1)
  from t have 2: "drop 2 (options (helper (run veto_helper 0 5 world0))) = [RetriableExceptions []]"
    by (simp add: new_RetriableExceptions_def numeral_2_eq_2)
  from t obtain evs where evs: "log (world_end (run veto_helper 0 5 world0)) = log world0 @ evs"
    "\<forall>j>length [new_LinearBackoff 10 :: (string, unit) RetryOption]. CheckCalled j \<notin> set evs"
    by blast
  from evs(2) have "CheckCalled 2 \<notin> set evs"
    by simp
  with evs(1) have 3: "CheckCalled 2 \<notin> set (log (world_end (run veto_helper 0 5 world0)))"
    by (simp add: world0_def)
  from o a r v 1 2 3 show ?thesis by blast
qed

text \<open>
  The linear backoff receives the previous delay, adds it to the timer it arms, and
  returns its own current delay alone.
\<close>

lemma LinearBackoff_returns_currentDelay:
  "LinearBackoff_retryDelayMs attempts currentDelay tmo d previousDelayMs ts w =
     (currentDelay + d,
      LinearBackoff attempts (currentDelay + d) (Some (previousDelayMs + (currentDelay + d))) d,
      emit (SetTimeout (previousDelayMs + (currentDelay + d))) w)"
  by (simp add: LinearBackoff_retryDelayMs_def setTimeout_def Let_def)

text \<open>
  The fold of the delay. Let the attempt fail and let no registered option's
  \<^verbatim>\<open>checkRetryAllowed\<close> throw. Then among the calls that \<^verbatim>\<open>run()\<close> adds to the log, \<^verbatim>\<open>retryDelayMs\<close> is called once on
  each option that has the method, in registration order, and on no other; the first call
  receives 0 as \<^verbatim>\<open>previousDelayMs\<close>, each later call receives what the call before it
  returned, and what the last call returned is the last value of the local variable
  \<^verbatim>\<open>delayMs\<close>. Nothing reads that variable afterwards.
\<close>

lemma run_delay_fold:
  assumes "args h = Some as" and "f h as s = (Rejects e, s1)"
    and "\<forall>opt\<in>set (options h). \<forall>m w0.
           checkRetryAllowed opt = Some m \<longrightarrow> fst (m 1 now (OpError e) w0) = None"
  shows "\<exists>evs. log (world_end (run h s now w)) = log w @ evs
           \<and> map fst (delay_calls evs) =
               map fst (filter (\<lambda>(j, opt). retryDelayMs opt \<noteq> None) (enumerate 0 (options h)))
           \<and> chain 0 (delay_calls evs) = Some (delayMs_end (run h s now w))"
proof -
  let ?w = "emit CallF (emit EmitterOn w)"
  obtain x opts1 d1 w1 where
    r: "for_options 0 (options h) 1 now (OpError e) 0 ?w = (x, opts1, d1, w1)"
    by (metis prod_cases4)
  have "fst (for_options 0 (options h) 1 now (OpError e) 0 ?w) = None"
    using assms(3) by (rule for_options_pass)
  with r have x: "x = None" by simp
  from for_options_events [OF r] obtain evs where evs0:
    "log w1 = log ?w @ evs
           \<and> (\<forall>ev\<in>set evs.
                 (\<exists>j. 0 \<le> j \<and> j < 0 + length (options h)
                      \<and> (ev = CheckCalled j \<or> (\<exists>p out. ev = DelayCalled j p out)))
                 \<or> is_timer ev)
           \<and> chain 0 (delay_calls evs) = Some d1
           \<and> length opts1 = length (options h)
           \<and> (x = None \<longrightarrow>
                map fst (delay_calls evs) =
                map fst (filter (\<lambda>(j, opt). retryDelayMs opt \<noteq> None) (enumerate 0 (options h))))" ..
  note evs = evs0 [THEN conjunct1] evs0 [THEN conjunct2, THEN conjunct2, THEN conjunct1]
    evs0 [THEN conjunct2, THEN conjunct2, THEN conjunct2, THEN conjunct2, rule_format, OF x]
  let ?evs = "EmitterOn # CallF # evs"
  have e: "world_end (run h s now w) = w1" "delayMs_end (run h s now w) = d1"
    using r by (simp_all add: run_rejects [OF assms(1,2)] catch_block_def)
  have 1: "log (world_end (run h s now w)) = log w @ ?evs"
    using evs(1) e by (simp add: emit_def)
  have 2: "map fst (delay_calls ?evs) =
               map fst (filter (\<lambda>(j, opt). retryDelayMs opt \<noteq> None) (enumerate 0 (options h)))"
    using evs(3) by simp
  have 3: "chain 0 (delay_calls ?evs) = Some (delayMs_end (run h s now w))"
    using evs(2) e by simp
  from 1 2 3 show ?thesis by blast
qed

text \<open>
  The fold for a linear backoff of 10, an attempt guard and a jitter of 100 to 250,
  every random sample being 1/2: the options at indices 0 and 2 contribute, the jitter
  receives the 10 of the backoff, and the round ends with \<open>1/2 * 150 + 10 = 85\<close>.
\<close>

lemma run_delay_fold_example:
  "args fold_helper = Some []
   \<and> f fold_helper [] 0 = (Rejects ''boom'', 1)
   \<and> fst (MaxAttemptsRetryAllowed_checkRetryAllowed 0 5 1 5 (OpError ''boom'') half_world
           :: string thrown option \<times> (string, unit) RetryOption \<times> world) = None
   \<and> map fst (delay_calls (log (world_end (run fold_helper 0 5 half_world)))) = [0, 2]
   \<and> chain 0 (delay_calls (log (world_end (run fold_helper 0 5 half_world))))
       = Some (delayMs_end (run fold_helper 0 5 half_world))
   \<and> delayMs_end (run fold_helper 0 5 half_world) = 85"
proof -
  have a: "args fold_helper = Some []"
    by (simp add: fold_helper_def new_RetryHelper_def)
  have r: "f fold_helper [] 0 = (Rejects ''boom'', 1)"
    by (simp add: fold_helper_def new_RetryHelper_def always_fails_def)
  have v: "fst (MaxAttemptsRetryAllowed_checkRetryAllowed 0 5 1 5 (OpError ''boom'') half_world
           :: string thrown option \<times> (string, unit) RetryOption \<times> world) = None"
    by (simp add: MaxAttemptsRetryAllowed_checkRetryAllowed_def)
  have p: "\<forall>opt\<in>set (options fold_helper). \<forall>m w0.
             checkRetryAllowed opt = Some m \<longrightarrow> fst (m 1 5 (OpError ''boom'') w0) = None"
    by (auto simp: fold_helper_def new_RetryHelper_def new_MaxAttemptsRetryAllowed_def
          new_LinearBackoff_def MaxAttemptsRetryAllowed_checkRetryAllowed_def)
  have ix: "map fst (filter (\<lambda>(j, opt). retryDelayMs opt \<noteq> None)
                      (enumerate 0 (options fold_helper))) = [0, 2]"
    by (simp add: fold_helper_def new_RetryHelper_def new_MaxAttemptsRetryAllowed_def
          new_LinearBackoff_def)
  have d: "delayMs_end (run fold_helper 0 5 half_world) = 85"
    by (simp add: fold_helper_def always_fails_def half_world_def engine_defs)
  from run_delay_fold [OF a r p, of half_world] obtain evs where e:
    "log (world_end (run fold_helper 0 5 half_world)) = log half_world @ evs"
    "map fst (delay_calls evs) =
       map fst (filter (\<lambda>(j, opt). retryDelayMs opt \<noteq> None) (enumerate 0 (options fold_helper)))"
    "chain 0 (delay_calls evs) = Some (delayMs_end (run fold_helper 0 5 half_world))"
    by blast
  have l: "log (world_end (run fold_helper 0 5 half_world)) = evs"
    using e(1) by (simp add: half_world_def)
  from a r v d e(2,3) ix show ?thesis
    by (simp add: l)
qed


section \<open>Where run and the options part from their documentation\<close>

text \<open>
  \<^verbatim>\<open>run()\<close> never resolves to a value: the awaited result of the wrapped operation is bound
  to a constant that nothing reads.
\<close>

lemma run_resolves_undefined:
  "outcome (run h s now w) \<noteq> Resolved (Some v)"
  by (simp add: run_def catch_block_def Let_def
        split: option.splits prod.splits settled.splits)

lemma run_success_undefined:
  "args h = Some as \<Longrightarrow> f h as s = (Resolves v, s1) \<Longrightarrow>
   outcome (run h s now w) = Resolved None \<and> op_state (run h s now w) = s1"
  by (simp add: run_def Let_def)

text \<open>
  With an attempt guard as the only option and an operation that rejects, one \<^verbatim>\<open>run()\<close>
  invokes the operation once; it rejects with \<open>MaxAttemptsException\<close> when
  \<open>maxAttempts \<le> 1\<close> and resolves otherwise.
\<close>

lemma run_max_attempts_once:
  assumes "args h = Some as" and "f h as s = (Rejects e, s1)"
    and "options h = [new_MaxAttemptsRetryAllowed n]"
  shows "outcome (run h s now w) =
           (if n \<le> 1 then Rejected (MaxAttemptsException 1 ''429'') else Resolved None)"
    and "op_state (run h s now w) = s1"
    and "log (world_end (run h s now w)) = log w @ [EmitterOn, CallF, CheckCalled 0]"
  using assms(3)
  by (simp_all add: run_rejects [OF assms(1,2)] catch_block_def option_round_def
        new_MaxAttemptsRetryAllowed_def MaxAttemptsRetryAllowed_checkRetryAllowed_def
        emit_def Let_def)

text \<open>
  Claim C1 (the code departs from it). The helper has the single option
  \<open>MaxAttemptsRetryAllowed\<close> with \<open>maxAttempts = 3\<close> and wraps an operation that rejects at
  every invocation and counts its invocations, starting at 0. One \<^verbatim>\<open>run()\<close> resolves to
  undefined instead of rejecting with \<open>MaxAttemptsException\<close>, and the operation has been
  invoked once, not three times; the guard has counted one attempt.
\<close>

theorem C1_three_attempts_allowed_one_made:
  "outcome (run max3_helper 0 5 world0) = Resolved None
   \<and> op_state (run max3_helper 0 5 world0) = 1
   \<and> count_list (log (world_end (run max3_helper 0 5 world0))) CallF = 1
   \<and> options (helper (run max3_helper 0 5 world0)) = [MaxAttemptsRetryAllowed 1 3]"
  by (simp add: max3_helper_def always_fails_def world0_def engine_defs)

text \<open>
  The check of \<open>MaxTimeout\<close> compares the clock reading itself, not the time elapsed since
  the helper was constructed, with the configured total.
\<close>

lemma MaxTimeout_throws_iff:
  "fst (MaxTimeout_checkRetryAllowed totalTimeoutMs n ts err w) \<noteq> None
   \<longleftrightarrow> ts \<ge> totalTimeoutMs"
  by (simp add: MaxTimeout_checkRetryAllowed_def)

text \<open>
  Claim C2 (the code departs from it). The helper is constructed at the clock reading
  1000000 with the single option \<open>MaxTimeout\<close> of 50 ms, and its operation rejects at the
  reading 1000010. The elapsed time, 10 ms, is below 50 ms; yet the check throws, and
  \<^verbatim>\<open>run()\<close> rejects with \<open>MaxTimeoutException\<close>.
\<close>

theorem C2_timeout_thrown_after_10_of_50_ms:
  "startTimestamp timeout_helper = 1000000
   \<and> 1000010 - startTimestamp timeout_helper < 50
   \<and> fst (MaxTimeout_checkRetryAllowed 50 1 1000010 (OpError ''boom'') world0
           :: string thrown option \<times> (string, unit) RetryOption \<times> world)
       = Some (MaxTimeoutException 50 ''408'')
   \<and> outcome (run timeout_helper 0 1000010 world0) = Rejected (MaxTimeoutException 50 ''408'')"
  by (simp add: timeout_helper_def always_fails_def world0_def engine_defs)

text \<open>
  Claim C3 (the code departs from it). The helper of the end-to-end scenario: at most 5
  attempts, linear backoff of 10, an operation that rejects twice and then resolves to 3.
  Run when the operation is about to succeed (two invocations behind it), \<^verbatim>\<open>run()\<close>
  resolves to undefined, not to 3. Run from the start, \<^verbatim>\<open>run()\<close> resolves to undefined
  after one invocation, with a delay of 10 computed and a timer armed, and no second or
  third invocation.
\<close>

theorem C3_run_drops_the_value:
  "f scenario_helper [] 2 = (Resolves 3, 3)
   \<and> outcome (run scenario_helper 2 5 world0) = Resolved None
   \<and> outcome (run scenario_helper 0 5 world0) = Resolved None
   \<and> op_state (run scenario_helper 0 5 world0) = 1
   \<and> delayMs_end (run scenario_helper 0 5 world0) = 10
   \<and> log (world_end (run scenario_helper 0 5 world0)) =
       [EmitterOn, CallF, CheckCalled 0, SetTimeout 10, DelayCalled 1 0 10]"
  by (simp add: scenario_helper_def fails_twice_then_3_def world0_def engine_defs)

text \<open>
  Claim C5 (the code departs from it). The helper has a linear backoff of 10, an attempt
  guard of 5 and a jitter of 100 to 250; its operation rejects, no check throws, and every
  sample of \<^verbatim>\<open>Math.random()\<close> is 1/2. The options are asked in registration order, the
  jitter receives the 10 that the backoff returned, and the fold ends with 85. That value
  is not used: \<^verbatim>\<open>run()\<close> resolves at once, the calls it made are the six listed, and none
  of them is a call of \<^verbatim>\<open>sleep\<close>, for 85 ms or for any other delay (the timer of 10 ms
  is the one that the backoff arms for itself).
\<close>

theorem C5_folded_delay_not_used:
  "delayMs_end (run fold_helper 0 5 half_world) = 85
   \<and> outcome (run fold_helper 0 5 half_world) = Resolved None
   \<and> op_state (run fold_helper 0 5 half_world) = 1
   \<and> log (world_end (run fold_helper 0 5 half_world)) =
       [EmitterOn, CallF, SetTimeout 10, DelayCalled 0 0 10, CheckCalled 1, DelayCalled 2 10 85]
   \<and> Sleep 85 \<notin> set (log (world_end (run fold_helper 0 5 half_world)))
   \<and> count_list (map is_timer (log (world_end (run fold_helper 0 5 half_world)))) True = 1"
  by (simp add: fold_helper_def always_fails_def half_world_def engine_defs)

text \<open>
  What the jitter option returns for a sample \<open>r\<close> of \<^verbatim>\<open>Math.random()\<close>, which lies in
  \<open>[0, 1)\<close>: the previous delay plus an offset in \<open>[0, maxJitterMs - minJitterMs)\<close>.
\<close>

lemma DelayJitter_range:
  assumes "0 \<le> random w (drawn w)" and "random w (drawn w) < 1"
    and "minJitterMs < maxJitterMs"
  shows "previousDelayMs
           \<le> fst (DelayJitter_retryDelayMs minJitterMs maxJitterMs previousDelayMs ts w)"
    and "fst (DelayJitter_retryDelayMs minJitterMs maxJitterMs previousDelayMs ts w)
           < previousDelayMs + (maxJitterMs - minJitterMs)"
proof -
  let ?r = "random w (drawn w)"
  have v: "fst (DelayJitter_retryDelayMs minJitterMs maxJitterMs previousDelayMs ts w) =
             ?r * (maxJitterMs - minJitterMs) + previousDelayMs"
    by (simp add: DelayJitter_retryDelayMs_def Math_random_def)
  have pos: "0 < maxJitterMs - minJitterMs"
    using assms(3) by simp
  have "0 \<le> ?r * (maxJitterMs - minJitterMs)"
    using assms(1) pos by simp
  then show "previousDelayMs
           \<le> fst (DelayJitter_retryDelayMs minJitterMs maxJitterMs previousDelayMs ts w)"
    by (simp add: v)
  have "?r * (maxJitterMs - minJitterMs) < 1 * (maxJitterMs - minJitterMs)"
    using assms(2) pos by (rule mult_strict_right_mono)
  then show "fst (DelayJitter_retryDelayMs minJitterMs maxJitterMs previousDelayMs ts w)
           < previousDelayMs + (maxJitterMs - minJitterMs)"
    by (simp add: v)
qed

text \<open>
  Claim C6 (the code departs from it). A jitter option with \<open>minJitterMs = 100\<close> and
  \<open>maxJitterMs = 250\<close> is asked on top of a previous delay of 0. When the sample of
  \<^verbatim>\<open>Math.random()\<close> is 0 it returns 0, and when the sample is 1/2 it returns 75: both are
  below \<open>0 + 100\<close>, outside the interval from \<open>previousDelay + 100\<close> to
  \<open>previousDelay + 250\<close>.
\<close>

theorem C6_jitter_below_minimum:
  "fst (DelayJitter_retryDelayMs 100 250 0 5 world0
         :: real \<times> (string, unit) RetryOption \<times> world) = 0
   \<and> fst (DelayJitter_retryDelayMs 100 250 0 5 half_world
         :: real \<times> (string, unit) RetryOption \<times> world) = 75
   \<and> \<not> (0 + 100 \<le> fst (DelayJitter_retryDelayMs 100 250 0 5 world0
                          :: real \<times> (string, unit) RetryOption \<times> world))
   \<and> \<not> (0 + 100 \<le> fst (DelayJitter_retryDelayMs 100 250 0 5 half_world
                          :: real \<times> (string, unit) RetryOption \<times> world))"
  by (simp add: DelayJitter_retryDelayMs_def Math_random_def world0_def half_world_def)

end
